theory Spec2Isabelle
  imports Main "HOL-Library.Char_ord" "HOL-Library.List_Lexorder"
begin

section \<open>Session-scoped task service: embedding of app/main.py\<close>

text \<open>
  The development follows \<^verbatim>\<open>src/app/main.py\<close>: the pydantic models
  (\<^verbatim>\<open>TaskBase\<close>, \<^verbatim>\<open>TaskCreate\<close>, \<^verbatim>\<open>TaskUpdate\<close>, \<^verbatim>\<open>Task\<close>, \<^verbatim>\<open>TaskStats\<close>),
  the repository \<^verbatim>\<open>InMemoryTaskRepository\<close>, the service \<^verbatim>\<open>TaskService\<close> and the
  endpoints that add logic of their own.

  Conventions. A Python \<^verbatim>\<open>str\<close> is a \<open>string\<close>; its characters stand for the code points
  below 256. A raised exception is the \<open>Inl\<close> branch of a sum. The repository's
  \<^verbatim>\<open>_storage\<close> dictionary is a map from session ids to lists of stored dictionaries and is
  passed explicitly; every operation that mutates it returns the new map. The two values the
  code takes from its environment, \<^verbatim>\<open>uuid.uuid4()\<close> and \<^verbatim>\<open>datetime.utcnow().isoformat()\<close>,
  are the fields of an \<open>env\<close> record. Record fields carry a one-letter prefix naming the
  Python type they belong to: \<open>d_\<close> for the stored \<^verbatim>\<open>Dict\<close>, \<open>c_\<close> for \<^verbatim>\<open>TaskCreate\<close>,
  \<open>u_\<close> for \<^verbatim>\<open>TaskUpdate\<close>, \<open>t_\<close> for \<^verbatim>\<open>Task\<close>, \<open>s_\<close> for \<^verbatim>\<open>TaskStats\<close>.
\<close>

subsection \<open>Strings: strip, lower, substring test\<close>

definition isspace :: "char \<Rightarrow> bool" where
  "isspace c = ((of_char c :: nat) \<in> set [9, 10, 11, 12, 13, 28, 29, 30, 31, 32, 133, 160])"

definition strip :: "string \<Rightarrow> string" where
  "strip s = rev (dropWhile isspace (rev (dropWhile isspace s)))"

definition lower_char :: "char \<Rightarrow> char" where
  "lower_char c =
     (let n = (of_char c :: nat)
      in if (65 \<le> n \<and> n \<le> 90) \<or> (192 \<le> n \<and> n \<le> 222 \<and> n \<noteq> 215)
         then char_of (n + 32) else c)"

definition lower :: "string \<Rightarrow> string" where
  "lower s = map lower_char s"

fun startswith :: "string \<Rightarrow> string \<Rightarrow> bool" where
  "startswith s [] = True"
| "startswith [] (p # ps) = False"
| "startswith (c # cs) (p # ps) = (c = p \<and> startswith cs ps)"

text \<open>\<open>contains s q\<close> is Python's \<^verbatim>\<open>q in s\<close> on strings.\<close>

fun contains :: "string \<Rightarrow> string \<Rightarrow> bool" where
  "contains [] q = (q = [])"
| "contains (c # cs) q = (startswith (c # cs) q \<or> contains cs q)"

subsection \<open>Enumerations and errors\<close>

datatype TaskStatus = PENDING | IN_PROGRESS | COMPLETED | CANCELLED

fun status_value :: "TaskStatus \<Rightarrow> string" where
  "status_value PENDING = ''PENDING''"
| "status_value IN_PROGRESS = ''IN_PROGRESS''"
| "status_value COMPLETED = ''COMPLETED''"
| "status_value CANCELLED = ''CANCELLED''"

text \<open>
  \<open>HTTPException code detail\<close> is the exception the service raises itself. \<open>ValidationError\<close>
  is pydantic's, raised when a model is constructed from values that break its declared
  constraints; \<open>AttributeError\<close> is Python's for a method call on \<^verbatim>\<open>None\<close>.
\<close>

datatype error = HTTPException nat string | ValidationError | AttributeError

definition NotFound :: error where
  "NotFound = HTTPException 404 ''Task not found''"

definition BadRequest_no_fields :: error where
  "BadRequest_no_fields = HTTPException 400 ''No fields to update''"

definition BadRequest_query :: error where
  "BadRequest_query = HTTPException 400 ''Query must be at least 2 characters''"

fun status_code :: "error \<Rightarrow> nat" where
  "status_code (HTTPException c d) = c"
| "status_code ValidationError = 500"
| "status_code AttributeError = 500"

subsection \<open>Models\<close>

text \<open>
  A field of a request body is either absent from the request or given, possibly as
  \<^verbatim>\<open>null\<close>: pydantic records the given ones in \<^verbatim>\<open>model_fields_set\<close>.
\<close>

datatype 'a field = Unset | Given 'a

text \<open>
  \<^verbatim>\<open>title: str = Field(..., min_length=3, max_length=200)\<close> with the validator
  \<^verbatim>\<open>title_not_empty\<close>. A \<^verbatim>\<open>field_validator\<close> runs in mode \<^verbatim>\<open>after\<close> unless told otherwise:
  the length bounds are checked on the value as received, then the validator strips it.
\<close>

definition title_not_empty :: "string \<Rightarrow> error + string" where
  "title_not_empty v = (if v = [] \<or> strip v = [] then Inl ValidationError else Inr (strip v))"

definition TaskBase_title :: "string \<Rightarrow> error + string" where
  "TaskBase_title v =
     (if length v < 3 \<or> 200 < length v then Inl ValidationError else title_not_empty v)"

definition description_ok :: "string option \<Rightarrow> bool" where
  "description_ok v = (case v of None \<Rightarrow> True | Some s \<Rightarrow> length s \<le> 1000)"

definition priority_ok :: "int \<Rightarrow> bool" where
  "priority_ok p = (1 \<le> p \<and> p \<le> 4)"

record TaskCreate =
  c_title :: string
  c_description :: "string option"
  c_priority :: int
  c_tags :: "string list option"
  c_due_date :: "string option"

text \<open>The body of \<^verbatim>\<open>POST /tasks\<close> before validation, and \<^verbatim>\<open>TaskCreate\<close>'s validation of it.\<close>

record create_body =
  b_title :: "string field"
  b_description :: "string option field"
  b_priority :: "int field"
  b_tags :: "string list option field"
  b_due_date :: "string option field"

definition or_default :: "'a field \<Rightarrow> 'a \<Rightarrow> 'a" where
  "or_default f dflt = (case f of Unset \<Rightarrow> dflt | Given v \<Rightarrow> v)"

definition TaskCreate_validate :: "create_body \<Rightarrow> error + TaskCreate" where
  "TaskCreate_validate b =
     (case b_title b of
        Unset \<Rightarrow> Inl ValidationError
      | Given v \<Rightarrow>
          (case TaskBase_title v of
             Inl e \<Rightarrow> Inl e
           | Inr t \<Rightarrow>
               if description_ok (or_default (b_description b) None)
                  \<and> priority_ok (or_default (b_priority b) 2)
               then Inr \<lparr>c_title = t,
                         c_description = or_default (b_description b) None,
                         c_priority = or_default (b_priority b) 2,
                         c_tags = or_default (b_tags b) (Some []),
                         c_due_date = or_default (b_due_date b) None\<rparr>
               else Inl ValidationError))"

text \<open>
  \<^verbatim>\<open>TaskUpdate\<close>: every field is \<^verbatim>\<open>Optional\<close>, so an explicit \<^verbatim>\<open>null\<close> passes for each of
  them. \<^verbatim>\<open>title_not_empty_if_present\<close> is the validator of its title.
\<close>

record TaskUpdate =
  u_title :: "string option field"
  u_description :: "string option field"
  u_status :: "TaskStatus option field"
  u_priority :: "int option field"
  u_tags :: "string list option field"
  u_due_date :: "string option field"

definition title_not_empty_if_present :: "string option \<Rightarrow> error + string option" where
  "title_not_empty_if_present v =
     (case v of
        None \<Rightarrow> Inr None
      | Some s \<Rightarrow> if s = [] \<or> strip s = [] then Inl ValidationError else Inr (Some (strip s)))"

definition TaskUpdate_title :: "string option \<Rightarrow> error + string option" where
  "TaskUpdate_title v =
     (case v of
        None \<Rightarrow> title_not_empty_if_present None
      | Some s \<Rightarrow>
          if length s < 3 \<or> 200 < length s then Inl ValidationError
          else title_not_empty_if_present (Some s))"

definition TaskUpdate_validate :: "TaskUpdate \<Rightarrow> error + TaskUpdate" where
  "TaskUpdate_validate b =
     (case (case u_title b of
              Unset \<Rightarrow> Inr Unset
            | Given v \<Rightarrow> (case TaskUpdate_title v of Inl e \<Rightarrow> Inl e | Inr w \<Rightarrow> Inr (Given w))) of
        Inl e \<Rightarrow> Inl e
      | Inr t \<Rightarrow>
          if description_ok (or_default (u_description b) None)
             \<and> (case or_default (u_priority b) None of None \<Rightarrow> True | Some p \<Rightarrow> priority_ok p)
          then Inr (b\<lparr>u_title := t\<rparr>)
          else Inl ValidationError)"

text \<open>The keys of \<^verbatim>\<open>updates.model_dump(exclude_unset=True)\<close>.\<close>

definition is_set :: "'a field \<Rightarrow> bool" where
  "is_set f = (case f of Unset \<Rightarrow> False | Given v \<Rightarrow> True)"

definition dump_keys :: "TaskUpdate \<Rightarrow> string list" where
  "dump_keys u =
     (if is_set (u_title u) then [''title''] else []) @
     (if is_set (u_description u) then [''description''] else []) @
     (if is_set (u_status u) then [''status''] else []) @
     (if is_set (u_priority u) then [''priority''] else []) @
     (if is_set (u_tags u) then [''tags''] else []) @
     (if is_set (u_due_date u) then [''due_date''] else [])"

text \<open>
  The dictionary the repository stores. Its keys are always the nine written by
  \<^verbatim>\<open>create_task\<close>; a value is optional where \<^verbatim>\<open>dict.update\<close> can put \<^verbatim>\<open>None\<close> there.
\<close>

record task_dict =
  d_id :: string
  d_title :: "string option"
  d_description :: "string option"
  d_priority :: "int option"
  d_tags :: "string list option"
  d_due_date :: "string option"
  d_status :: "TaskStatus option"
  d_created_at :: string
  d_updated_at :: string

record Task =
  t_id :: string
  t_title :: string
  t_description :: "string option"
  t_priority :: int
  t_status :: TaskStatus
  t_tags :: "string list"
  t_due_date :: "string option"
  t_created_at :: string
  t_updated_at :: string

text \<open>
  \<^verbatim>\<open>Task(**d)\<close>: \<^verbatim>\<open>Task\<close> inherits the title field and its validator from \<^verbatim>\<open>TaskBase\<close>,
  and declares priority, status and tags without \<^verbatim>\<open>Optional\<close>.
\<close>

definition Task_of_dict :: "task_dict \<Rightarrow> error + Task" where
  "Task_of_dict d =
     (case (d_title d, d_priority d, d_status d, d_tags d) of
        (Some v, Some p, Some s, Some g) \<Rightarrow>
          (case TaskBase_title v of
             Inl e \<Rightarrow> Inl e
           | Inr t \<Rightarrow>
               if description_ok (d_description d) \<and> priority_ok p
               then Inr \<lparr>t_id = d_id d, t_title = t, t_description = d_description d,
                         t_priority = p, t_status = s, t_tags = g, t_due_date = d_due_date d,
                         t_created_at = d_created_at d, t_updated_at = d_updated_at d\<rparr>
               else Inl ValidationError)
      | _ \<Rightarrow> Inl ValidationError)"

text \<open>\<^verbatim>\<open>[Task(**t) for t in tasks]\<close>: the first failing element raises.\<close>

fun Task_list :: "task_dict list \<Rightarrow> error + Task list" where
  "Task_list [] = Inr []"
| "Task_list (d # ds) =
     (case Task_of_dict d of
        Inl e \<Rightarrow> Inl e
      | Inr t \<Rightarrow> (case Task_list ds of Inl e \<Rightarrow> Inl e | Inr ts \<Rightarrow> Inr (t # ts)))"

record TaskStats =
  s_total :: int
  s_pending :: int
  s_in_progress :: int
  s_completed :: int
  s_cancelled :: int

subsection \<open>InMemoryTaskRepository\<close>

type_synonym storage = "string \<Rightarrow> task_dict list option"

record env =
  uuid4 :: string
  utcnow :: string

definition find_all :: "storage \<Rightarrow> string \<Rightarrow> task_dict list" where
  "find_all st session_id = (case st session_id of None \<Rightarrow> [] | Some tasks \<Rightarrow> tasks)"

definition find_by_id :: "storage \<Rightarrow> string \<Rightarrow> string \<Rightarrow> task_dict option" where
  "find_by_id st session_id task_id = find (\<lambda>t. d_id t = task_id) (find_all st session_id)"

definition repo_create :: "storage \<Rightarrow> string \<Rightarrow> task_dict \<Rightarrow> task_dict \<times> storage" where
  "repo_create st session_id task =
     (let st1 = (if st session_id = None then st(session_id \<mapsto> []) else st)
      in (task, st1(session_id \<mapsto> find_all st1 session_id @ [task])))"

text \<open>\<^verbatim>\<open>task.update(updates)\<close> on the stored dictionary.\<close>

definition dict_update :: "task_dict \<Rightarrow> TaskUpdate \<Rightarrow> task_dict" where
  "dict_update t u =
     t\<lparr>d_title := or_default (u_title u) (d_title t),
       d_description := or_default (u_description u) (d_description t),
       d_status := or_default (u_status u) (d_status t),
       d_priority := or_default (u_priority u) (d_priority t),
       d_tags := or_default (u_tags u) (d_tags t),
       d_due_date := or_default (u_due_date u) (d_due_date t)\<rparr>"

text \<open>
  The dictionary \<^verbatim>\<open>find_by_id\<close> returns is the stored object, so mutating it changes the
  first element of the list that has the id.
\<close>

fun mutate_first :: "string \<Rightarrow> (task_dict \<Rightarrow> task_dict) \<Rightarrow> task_dict list \<Rightarrow> task_dict list" where
  "mutate_first task_id f [] = []"
| "mutate_first task_id f (t # ts) =
     (if d_id t = task_id then f t # ts else t # mutate_first task_id f ts)"

definition repo_update ::
  "env \<Rightarrow> storage \<Rightarrow> string \<Rightarrow> string \<Rightarrow> TaskUpdate \<Rightarrow> task_dict option \<times> storage" where
  "repo_update e st session_id task_id updates =
     (case find_by_id st session_id task_id of
        None \<Rightarrow> (None, st)
      | Some task \<Rightarrow>
          (let f = (\<lambda>t. (dict_update t updates)\<lparr>d_updated_at := utcnow e\<rparr>)
           in (Some (f task),
               st(session_id \<mapsto> mutate_first task_id f (find_all st session_id)))))"

definition repo_delete :: "storage \<Rightarrow> string \<Rightarrow> string \<Rightarrow> bool \<times> storage" where
  "repo_delete st session_id task_id =
     (case find_by_id st session_id task_id of
        None \<Rightarrow> (False, st)
      | Some task \<Rightarrow> (True, st(session_id \<mapsto> remove1 task (find_all st session_id))))"

subsection \<open>TaskService\<close>

definition status_is :: "string \<Rightarrow> task_dict \<Rightarrow> bool" where
  "status_is s t = (case d_status t of None \<Rightarrow> False | Some v \<Rightarrow> status_value v = s)"

definition get_all_tasks :: "storage \<Rightarrow> string \<Rightarrow> string option \<Rightarrow> error + Task list" where
  "get_all_tasks st session_id status =
     (let tasks = find_all st session_id;
          tasks' = (case status of
                      None \<Rightarrow> tasks
                    | Some s \<Rightarrow> if s = [] then tasks else filter (status_is s) tasks)
      in Task_list tasks')"

definition get_task_by_id :: "storage \<Rightarrow> string \<Rightarrow> string \<Rightarrow> error + Task" where
  "get_task_by_id st session_id task_id =
     (case find_by_id st session_id task_id of
        None \<Rightarrow> Inl NotFound
      | Some task \<Rightarrow> Task_of_dict task)"

definition new_task_dict :: "env \<Rightarrow> TaskCreate \<Rightarrow> task_dict" where
  "new_task_dict e task_data =
     \<lparr>d_id = uuid4 e,
      d_title = Some (c_title task_data),
      d_description = c_description task_data,
      d_priority = Some (c_priority task_data),
      d_tags = c_tags task_data,
      d_due_date = c_due_date task_data,
      d_status = Some PENDING,
      d_created_at = utcnow e,
      d_updated_at = utcnow e\<rparr>"

definition create_task :: "env \<Rightarrow> storage \<Rightarrow> string \<Rightarrow> TaskCreate \<Rightarrow> (error + Task) \<times> storage" where
  "create_task e st session_id task_data =
     (case repo_create st session_id (new_task_dict e task_data) of
        (created, st') \<Rightarrow> (Task_of_dict created, st'))"

definition update_task ::
  "env \<Rightarrow> storage \<Rightarrow> string \<Rightarrow> string \<Rightarrow> TaskUpdate \<Rightarrow> (error + Task) \<times> storage" where
  "update_task e st session_id task_id updates =
     (if dump_keys updates = [] then (Inl BadRequest_no_fields, st)
      else (case repo_update e st session_id task_id updates of
              (None, st') \<Rightarrow> (Inl NotFound, st')
            | (Some updated, st') \<Rightarrow> (Task_of_dict updated, st')))"

definition delete_task :: "storage \<Rightarrow> string \<Rightarrow> string \<Rightarrow> (error + unit) \<times> storage" where
  "delete_task st session_id task_id =
     (case repo_delete st session_id task_id of
        (deleted, st') \<Rightarrow> (if \<not> deleted then Inl NotFound else Inr (), st'))"

definition count_status :: "TaskStatus \<Rightarrow> task_dict list \<Rightarrow> int" where
  "count_status v tasks = int (length (filter (status_is (status_value v)) tasks))"

definition get_statistics :: "storage \<Rightarrow> string \<Rightarrow> TaskStats" where
  "get_statistics st session_id =
     (let tasks = find_all st session_id
      in \<lparr>s_total = int (length tasks),
          s_pending = count_status PENDING tasks,
          s_in_progress = count_status IN_PROGRESS tasks,
          s_completed = count_status COMPLETED tasks,
          s_cancelled = count_status CANCELLED tasks\<rparr>)"

text \<open>
  The condition of the comprehension in \<^verbatim>\<open>search_tasks\<close>: \<^verbatim>\<open>t["title"].lower()\<close> raises on
  \<^verbatim>\<open>None\<close>; \<^verbatim>\<open>t.get("description") and ...\<close> is false for \<^verbatim>\<open>None\<close> and for the empty string.
\<close>

definition search_match :: "string \<Rightarrow> task_dict \<Rightarrow> error + bool" where
  "search_match query_lower t =
     (case d_title t of
        None \<Rightarrow> Inl AttributeError
      | Some v \<Rightarrow>
          Inr (contains (lower v) query_lower \<or>
               (case d_description t of
                  None \<Rightarrow> False
                | Some s \<Rightarrow> s \<noteq> [] \<and> contains (lower s) query_lower)))"

fun search_filter :: "string \<Rightarrow> task_dict list \<Rightarrow> error + task_dict list" where
  "search_filter q [] = Inr []"
| "search_filter q (t # ts) =
     (case search_match q t of
        Inl e \<Rightarrow> Inl e
      | Inr b \<Rightarrow>
          (case search_filter q ts of
             Inl e \<Rightarrow> Inl e
           | Inr r \<Rightarrow> Inr (if b then t # r else r)))"

definition search_tasks :: "storage \<Rightarrow> string \<Rightarrow> string \<Rightarrow> error + Task list" where
  "search_tasks st session_id query =
     (case search_filter (lower query) (find_all st session_id) of
        Inl e \<Rightarrow> Inl e
      | Inr filtered \<Rightarrow> Task_list filtered)"

subsection \<open>Endpoints with logic of their own\<close>

definition search_tasks_endpoint :: "storage \<Rightarrow> string \<Rightarrow> string \<Rightarrow> error + Task list" where
  "search_tasks_endpoint st session_id q =
     (if length q < 2 then Inl BadRequest_query else search_tasks st session_id q)"

definition delete_all_tasks :: "storage \<Rightarrow> string \<Rightarrow> storage" where
  "delete_all_tasks st session_id =
     (if st session_id \<noteq> None then st(session_id \<mapsto> []) else st)"

subsection \<open>What a session can observe\<close>

text \<open>
  The four read operations of a session, taken together: list with a filter, get by id,
  search through the endpoint, and statistics.
\<close>

definition reads ::
  "storage \<Rightarrow> string \<Rightarrow> string option \<Rightarrow> string \<Rightarrow> string \<Rightarrow>
     (error + Task list) \<times> (error + Task) \<times> (error + Task list) \<times> TaskStats" where
  "reads st session_id status task_id q =
     (get_all_tasks st session_id status, get_task_by_id st session_id task_id,
      search_tasks_endpoint st session_id q, get_statistics st session_id)"

subsection \<open>Concrete values used in the examples\<close>

definition example_env :: env where
  "example_env = \<lparr>uuid4 = ''id-1'', utcnow = ''2024-01-01T00:00:00''\<rparr>"

definition example_draft :: TaskCreate where
  "example_draft = \<lparr>c_title = ''Fix Bug'', c_description = None, c_priority = 2,
     c_tags = Some [], c_due_date = None\<rparr>"

definition example_store :: storage where
  "example_store = snd (create_task example_env Map.empty ''s1'' example_draft)"

definition no_fields :: TaskUpdate where
  "no_fields = \<lparr>u_title = Unset, u_description = Unset, u_status = Unset, u_priority = Unset,
     u_tags = Unset, u_due_date = Unset\<rparr>"

definition priority_1 :: TaskUpdate where
  "priority_1 = no_fields\<lparr>u_priority := Given (Some 1)\<rparr>"

subsection \<open>The input contract of the service, and a task as a dictionary\<close>

text \<open>
  A draft as the service expects it from the boundary: the title carries no surrounding
  whitespace and has 3 to 200 characters, the description is absent or has at most 1000
  characters, the priority is between 1 and 4, the tags are a sequence.
\<close>

definition valid_draft :: "TaskCreate \<Rightarrow> bool" where
  "valid_draft d =
     (strip (c_title d) = c_title d \<and> 3 \<le> length (c_title d) \<and> length (c_title d) \<le> 200 \<and>
      description_ok (c_description d) \<and> priority_ok (c_priority d) \<and> c_tags d \<noteq> None)"

text \<open>The dictionary with the fields of a \<^verbatim>\<open>Task\<close>, to compare a returned task with a stored one.\<close>

definition dict_of_Task :: "Task \<Rightarrow> task_dict" where
  "dict_of_Task t =
     \<lparr>d_id = t_id t, d_title = Some (t_title t), d_description = t_description t,
      d_priority = Some (t_priority t), d_tags = Some (t_tags t), d_due_date = t_due_date t,
      d_status = Some (t_status t), d_created_at = t_created_at t,
      d_updated_at = t_updated_at t\<rparr>"

text \<open>A request body that gives a title and nothing else.\<close>

definition title_only :: "string \<Rightarrow> create_body" where
  "title_only v = \<lparr>b_title = Given v, b_description = Unset, b_priority = Unset,
     b_tags = Unset, b_due_date = Unset\<rparr>"

definition example_Task :: Task where
  "example_Task = \<lparr>t_id = ''id-1'', t_title = ''Fix Bug'', t_description = None,
     t_priority = 2, t_status = PENDING, t_tags = [], t_due_date = None,
     t_created_at = ''2024-01-01T00:00:00'', t_updated_at = ''2024-01-01T00:00:00''\<rparr>"

definition later_env :: env where
  "later_env = \<lparr>uuid4 = ''id-2'', utcnow = ''2024-01-02T08:30:00''\<rparr>"

definition done_update :: TaskUpdate where
  "done_update = no_fields\<lparr>u_status := Given (Some COMPLETED), u_description := Given None\<rparr>"

text \<open>Drafts whose title is shorter than three characters once stripped.\<close>

definition short_draft :: TaskCreate where
  "short_draft = \<lparr>c_title = ''a'', c_description = None, c_priority = 2,
     c_tags = Some [], c_due_date = None\<rparr>"

definition ab_draft :: TaskCreate where
  "ab_draft = \<lparr>c_title = ''ab'', c_description = None, c_priority = 2,
     c_tags = Some [], c_due_date = None\<rparr>"

text \<open>Change sets that name one field and give \<^verbatim>\<open>null\<close> for it.\<close>

definition null_title :: TaskUpdate where
  "null_title = no_fields\<lparr>u_title := Given None\<rparr>"

definition null_status :: TaskUpdate where
  "null_status = no_fields\<lparr>u_status := Given None\<rparr>"

text \<open>A clock reading earlier than the stamps of \<open>example_store\<close>.\<close>

definition earlier_env :: env where
  "earlier_env = \<lparr>uuid4 = ''id-2'', utcnow = ''2023-12-31T23:59:59''\<rparr>"

text \<open>The body \<^verbatim>\<open>{"title": "abc", "tags": null}\<close> and the draft \<^verbatim>\<open>TaskCreate\<close> makes of it.\<close>

definition null_tags_body :: create_body where
  "null_tags_body = \<lparr>b_title = Given ''abc'', b_description = Unset, b_priority = Unset,
     b_tags = Given None, b_due_date = Unset\<rparr>"

definition null_tags_draft :: TaskCreate where
  "null_tags_draft = \<lparr>c_title = ''abc'', c_description = None, c_priority = 2,
     c_tags = None, c_due_date = None\<rparr>"

subsection \<open>Stored dictionaries that are tasks\<close>

text \<open>
  A stored dictionary is a task when \<^verbatim>\<open>Task(**d)\<close> accepts it and gives its fields back
  unchanged. A change set meets the input contract when it gives no \<^verbatim>\<open>null\<close> for title,
  status, priority or tags, a title without surrounding whitespace of 3 to 200 characters,
  a description of at most 1000 characters and a priority between 1 and 4.
\<close>

definition is_Task_dict :: "task_dict \<Rightarrow> bool" where
  "is_Task_dict d = (case Task_of_dict d of Inl e \<Rightarrow> False | Inr T \<Rightarrow> dict_of_Task T = d)"

definition valid_update :: "TaskUpdate \<Rightarrow> bool" where
  "valid_update u =
     ((case u_title u of
         Unset \<Rightarrow> True
       | Given None \<Rightarrow> False
       | Given (Some t) \<Rightarrow> strip t = t \<and> 3 \<le> length t \<and> length t \<le> 200) \<and>
      description_ok (or_default (u_description u) None) \<and>
      u_status u \<noteq> Given None \<and>
      (case u_priority u of
         Unset \<Rightarrow> True
       | Given None \<Rightarrow> False
       | Given (Some p) \<Rightarrow> priority_ok p) \<and>
      u_tags u \<noteq> Given None)"

section \<open>Properties\<close>

subsection \<open>The repository touches one partition\<close>

lemma find_all_cong: "st S = st' S \<Longrightarrow> find_all st S = find_all st' S"
  by (simp add: find_all_def)

lemma find_by_id_cong: "st S = st' S \<Longrightarrow> find_by_id st S t = find_by_id st' S t"
  by (simp add: find_by_id_def find_all_def)

lemma repo_create_other: "S1 \<noteq> S2 \<Longrightarrow> snd (repo_create st S1 d) S2 = st S2"
  by (simp add: repo_create_def Let_def)

lemma repo_update_other: "S1 \<noteq> S2 \<Longrightarrow> snd (repo_update e st S1 t u) S2 = st S2"
  by (simp add: repo_update_def Let_def split: option.splits)

lemma repo_delete_other: "S1 \<noteq> S2 \<Longrightarrow> snd (repo_delete st S1 t) S2 = st S2"
  by (simp add: repo_delete_def split: option.splits)

lemma create_task_snd: "snd (create_task e st S d) = snd (repo_create st S (new_task_dict e d))"
  by (cases "repo_create st S (new_task_dict e d)") (simp add: create_task_def)

lemma update_task_snd:
  "snd (update_task e st S t u) = (if dump_keys u = [] then st else snd (repo_update e st S t u))"
  by (cases "repo_update e st S t u") (simp add: update_task_def split: option.splits)

lemma delete_task_snd: "snd (delete_task st S t) = snd (repo_delete st S t)"
  by (cases "repo_delete st S t") (simp add: delete_task_def)

lemma create_task_other: "S1 \<noteq> S2 \<Longrightarrow> snd (create_task e st S1 d) S2 = st S2"
  by (simp add: create_task_snd repo_create_other)

lemma update_task_other: "S1 \<noteq> S2 \<Longrightarrow> snd (update_task e st S1 t u) S2 = st S2"
  by (simp add: update_task_snd repo_update_other)

lemma delete_task_other: "S1 \<noteq> S2 \<Longrightarrow> snd (delete_task st S1 t) S2 = st S2"
  by (simp add: delete_task_snd repo_delete_other)

lemma delete_all_other: "S1 \<noteq> S2 \<Longrightarrow> delete_all_tasks st S1 S2 = st S2"
  by (simp add: delete_all_tasks_def)

lemma reads_only_partition:
  assumes "st S = st' S"
  shows "reads st S f t q = reads st' S f t q"
proof -
  have a: "find_all st S = find_all st' S" using assms by (rule find_all_cong)
  have b: "find_by_id st S t = find_by_id st' S t" using assms by (rule find_by_id_cong)
  show ?thesis
    by (simp add: reads_def get_all_tasks_def get_task_by_id_def search_tasks_def
        search_tasks_endpoint_def get_statistics_def a b)
qed

lemma example_store_s1: "example_store ''s1'' = Some [new_task_dict example_env example_draft]"
  by (simp add: example_store_def create_task_def repo_create_def find_all_def Let_def)

lemma example_store_s2: "example_store ''s2'' = None"
  by (simp add: example_store_def create_task_def repo_create_def find_all_def Let_def)

lemma repo_create_eq:
  "repo_create st S d = (d, st(S \<mapsto> find_all st S @ [d]))"
  by (simp add: repo_create_def find_all_def Let_def)

lemma create_task_eq:
  "create_task e st S d = (Task_of_dict (new_task_dict e d), st(S \<mapsto> find_all st S @ [new_task_dict e d]))"
  by (simp add: create_task_def repo_create_eq)

lemma repo_create_local:
  "st S = st' S \<Longrightarrow>
   fst (repo_create st S d) = fst (repo_create st' S d) \<and>
   snd (repo_create st S d) S = snd (repo_create st' S d) S"
  by (simp add: repo_create_def Let_def find_all_def)

lemma repo_update_local:
  assumes "st S = st' S"
  shows "fst (repo_update e st S i u) = fst (repo_update e st' S i u) \<and>
         snd (repo_update e st S i u) S = snd (repo_update e st' S i u) S"
proof -
  have a: "find_all st S = find_all st' S" using assms by (rule find_all_cong)
  have b: "find_by_id st S i = find_by_id st' S i" using assms by (rule find_by_id_cong)
  show ?thesis using assms
    by (simp add: repo_update_def Let_def a b split: option.splits)
qed

lemma repo_delete_local:
  assumes "st S = st' S"
  shows "fst (repo_delete st S i) = fst (repo_delete st' S i) \<and>
         snd (repo_delete st S i) S = snd (repo_delete st' S i) S"
proof -
  have a: "find_all st S = find_all st' S" using assms by (rule find_all_cong)
  have b: "find_by_id st S i = find_by_id st' S i" using assms by (rule find_by_id_cong)
  show ?thesis using assms
    by (simp add: repo_delete_def a b split: option.splits)
qed

lemma create_task_local:
  assumes "st S = st' S"
  shows "fst (create_task e st S d) = fst (create_task e st' S d) \<and>
         snd (create_task e st S d) S = snd (create_task e st' S d) S"
  using assms by (simp add: create_task_eq find_all_def)

lemma update_task_fst:
  "fst (update_task e st S i u) =
     (if dump_keys u = [] then Inl BadRequest_no_fields
      else case fst (repo_update e st S i u) of None \<Rightarrow> Inl NotFound | Some d \<Rightarrow> Task_of_dict d)"
  by (cases "repo_update e st S i u") (simp add: update_task_def split: option.splits)

lemma update_task_local:
  assumes "st S = st' S"
  shows "fst (update_task e st S i u) = fst (update_task e st' S i u) \<and>
         snd (update_task e st S i u) S = snd (update_task e st' S i u) S"
  using repo_update_local [of st S st' e i u, OF assms] assms
  by (simp add: update_task_fst update_task_snd)

lemma delete_task_fst:
  "fst (delete_task st S i) = (if \<not> fst (repo_delete st S i) then Inl NotFound else Inr ())"
  by (cases "repo_delete st S i") (simp add: delete_task_def)

lemma delete_task_local:
  assumes "st S = st' S"
  shows "fst (delete_task st S i) = fst (delete_task st' S i) \<and>
         snd (delete_task st S i) S = snd (delete_task st' S i) S"
  using repo_delete_local [of st S st' i, OF assms]
  by (simp add: delete_task_fst delete_task_snd)

lemma delete_all_local:
  "st S = st' S \<Longrightarrow> delete_all_tasks st S S = delete_all_tasks st' S S"
  by (simp add: delete_all_tasks_def)

text \<open>
  C1 (session isolation). Every operation of a session reads and writes only the partition
  under that session's key. For two distinct sessions \<open>Sa\<close> and \<open>Sb\<close>: creating,
  updating, deleting or clearing under \<open>Sa\<close> leaves the partition under \<open>Sb\<close> as it was;
  after a create under \<open>Sa\<close> the list, get, search and statistics of \<open>Sb\<close> return what
  they returned before, and a create, update, delete or clear of \<open>Sb\<close> itself returns the
  same result and leaves the same partition under \<open>Sb\<close> as it would have without that
  create. For two stores that agree on the partition of a session \<open>S\<close>: the four reads of
  \<open>S\<close> agree, and create, update, delete and clear under \<open>S\<close> return the same results
  and produce the same partition under \<open>S\<close>.
\<close>

theorem session_isolation:
  "(Sa \<noteq> Sb \<longrightarrow>
      snd (create_task e st Sa d) Sb = st Sb \<and>
      snd (update_task e st Sa tid u) Sb = st Sb \<and>
      snd (delete_task st Sa tid) Sb = st Sb \<and>
      delete_all_tasks st Sa Sb = st Sb \<and>
      reads (snd (create_task e st Sa d)) Sb f t q = reads st Sb f t q \<and>
      fst (create_task e' (snd (create_task e st Sa d)) Sb d') = fst (create_task e' st Sb d') \<and>
      snd (create_task e' (snd (create_task e st Sa d)) Sb d') Sb
        = snd (create_task e' st Sb d') Sb \<and>
      fst (update_task e' (snd (create_task e st Sa d)) Sb t u') = fst (update_task e' st Sb t u') \<and>
      snd (update_task e' (snd (create_task e st Sa d)) Sb t u') Sb
        = snd (update_task e' st Sb t u') Sb \<and>
      fst (delete_task (snd (create_task e st Sa d)) Sb t) = fst (delete_task st Sb t) \<and>
      snd (delete_task (snd (create_task e st Sa d)) Sb t) Sb = snd (delete_task st Sb t) Sb \<and>
      delete_all_tasks (snd (create_task e st Sa d)) Sb Sb = delete_all_tasks st Sb Sb) \<and>
   (st S = st' S \<longrightarrow>
      reads st S f t q = reads st' S f t q \<and>
      fst (create_task e st S d) = fst (create_task e st' S d) \<and>
      snd (create_task e st S d) S = snd (create_task e st' S d) S \<and>
      fst (update_task e st S tid u) = fst (update_task e st' S tid u) \<and>
      snd (update_task e st S tid u) S = snd (update_task e st' S tid u) S \<and>
      fst (delete_task st S tid) = fst (delete_task st' S tid) \<and>
      snd (delete_task st S tid) S = snd (delete_task st' S tid) S \<and>
      delete_all_tasks st S S = delete_all_tasks st' S S)"
proof (rule conjI; rule impI)
  assume ne: "Sa \<noteq> Sb"
  let ?st1 = "snd (create_task e st Sa d)"
  have fr: "?st1 Sb = st Sb" using ne by (rule create_task_other)
  have 1: "snd (update_task e st Sa tid u) Sb = st Sb" using ne by (rule update_task_other)
  have 2: "snd (delete_task st Sa tid) Sb = st Sb" using ne by (rule delete_task_other)
  have 3: "delete_all_tasks st Sa Sb = st Sb" using ne by (rule delete_all_other)
  have 4: "reads ?st1 Sb f t q = reads st Sb f t q" using fr by (rule reads_only_partition [of ?st1 Sb st])
  note 5 = create_task_local [of ?st1 Sb st e' d', OF fr]
  note 6 = update_task_local [of ?st1 Sb st e' t u', OF fr]
  note 7 = delete_task_local [of ?st1 Sb st t, OF fr]
  note 8 = delete_all_local [of ?st1 Sb st, OF fr]
  show "snd (create_task e st Sa d) Sb = st Sb \<and>
      snd (update_task e st Sa tid u) Sb = st Sb \<and>
      snd (delete_task st Sa tid) Sb = st Sb \<and>
      delete_all_tasks st Sa Sb = st Sb \<and>
      reads (snd (create_task e st Sa d)) Sb f t q = reads st Sb f t q \<and>
      fst (create_task e' (snd (create_task e st Sa d)) Sb d') = fst (create_task e' st Sb d') \<and>
      snd (create_task e' (snd (create_task e st Sa d)) Sb d') Sb
        = snd (create_task e' st Sb d') Sb \<and>
      fst (update_task e' (snd (create_task e st Sa d)) Sb t u') = fst (update_task e' st Sb t u') \<and>
      snd (update_task e' (snd (create_task e st Sa d)) Sb t u') Sb
        = snd (update_task e' st Sb t u') Sb \<and>
      fst (delete_task (snd (create_task e st Sa d)) Sb t) = fst (delete_task st Sb t) \<and>
      snd (delete_task (snd (create_task e st Sa d)) Sb t) Sb = snd (delete_task st Sb t) Sb \<and>
      delete_all_tasks (snd (create_task e st Sa d)) Sb Sb = delete_all_tasks st Sb Sb"
    using fr 1 2 3 4 5 6 7 8 by (simp only: simp_thms)
next
  assume eq: "st S = st' S"
  show "reads st S f t q = reads st' S f t q \<and>
      fst (create_task e st S d) = fst (create_task e st' S d) \<and>
      snd (create_task e st S d) S = snd (create_task e st' S d) S \<and>
      fst (update_task e st S tid u) = fst (update_task e st' S tid u) \<and>
      snd (update_task e st S tid u) S = snd (update_task e st' S tid u) S \<and>
      fst (delete_task st S tid) = fst (delete_task st' S tid) \<and>
      snd (delete_task st S tid) S = snd (delete_task st' S tid) S \<and>
      delete_all_tasks st S S = delete_all_tasks st' S S"
    using reads_only_partition [of st S st' f t q, OF eq] create_task_local [of st S st' e d, OF eq]
      update_task_local [of st S st' e tid u, OF eq] delete_task_local [of st S st' tid, OF eq]
      delete_all_local [of st S st', OF eq]
    by (simp only: simp_thms)
qed

theorem session_isolation_witness:
  "''s1'' \<noteq> ''s2'' \<and>
   example_store ''s2'' = Map.empty ''s2'' \<and>
   snd (create_task later_env example_store ''s1'' example_draft) ''s2'' = example_store ''s2'' \<and>
   reads (snd (create_task later_env example_store ''s1'' example_draft)) ''s2'' None ''id-1'' ''bug''
     = reads example_store ''s2'' None ''id-1'' ''bug'' \<and>
   reads example_store ''s2'' None ''id-1'' ''bug'' = reads Map.empty ''s2'' None ''id-1'' ''bug'' \<and>
   get_all_tasks example_store ''s2'' None = Inr [] \<and>
   get_task_by_id example_store ''s2'' ''id-1'' = Inl NotFound \<and>
   search_tasks_endpoint example_store ''s2'' ''bug'' = Inr [] \<and>
   s_total (get_statistics example_store ''s2'') = 0 \<and>
   fst (update_task later_env example_store ''s2'' ''id-1'' priority_1) = Inl NotFound \<and>
   fst (delete_task example_store ''s2'' ''id-1'') = Inl NotFound"
proof -
  note th = session_isolation [where Sa = "''s1''" and Sb = "''s2''" and e = later_env
      and st = example_store and d = example_draft and tid = "''id-1''" and u = priority_1
      and f = None and t = "''id-1''" and q = "''bug''" and e' = later_env
      and d' = example_draft and u' = priority_1 and S = "''s2''" and st' = Map.empty]
  have ne: "''s1'' \<noteq> ''s2''" by simp
  have eq: "example_store ''s2'' = Map.empty ''s2''" by (simp add: example_store_s2)
  note p1 = th [THEN conjunct1, THEN mp, OF ne]
  note p2 = th [THEN conjunct2, THEN mp, OF eq]
  have k: "dump_keys priority_1 \<noteq> []"
    by (simp add: priority_1_def no_fields_def dump_keys_def is_set_def)
  have r: "reads Map.empty ''s2'' None ''id-1'' ''bug''
      = (Inr [], Inl NotFound, Inr [],
         \<lparr>s_total = 0, s_pending = 0, s_in_progress = 0, s_completed = 0, s_cancelled = 0\<rparr>)"
    by (simp add: reads_def get_all_tasks_def get_task_by_id_def search_tasks_endpoint_def
        search_tasks_def get_statistics_def count_status_def find_all_def find_by_id_def)
  have u0: "fst (update_task later_env Map.empty ''s2'' ''id-1'' priority_1) = Inl NotFound"
    using k by (simp add: update_task_def repo_update_def find_by_id_def find_all_def)
  have d0: "fst (delete_task Map.empty ''s2'' ''id-1'') = Inl NotFound"
    by (simp add: delete_task_def repo_delete_def find_by_id_def find_all_def)
  have a1: "snd (create_task later_env example_store ''s1'' example_draft) ''s2'' = example_store ''s2''"
    using p1 by (rule conjunct1)
  have a2: "reads (snd (create_task later_env example_store ''s1'' example_draft)) ''s2'' None ''id-1'' ''bug''
     = reads example_store ''s2'' None ''id-1'' ''bug''"
    using p1 by (elim conjE)
  have b1: "reads example_store ''s2'' None ''id-1'' ''bug'' = reads Map.empty ''s2'' None ''id-1'' ''bug''"
    using p2 by (rule conjunct1)
  have b2: "fst (update_task later_env example_store ''s2'' ''id-1'' priority_1)
      = fst (update_task later_env Map.empty ''s2'' ''id-1'' priority_1)"
    using p2 by (elim conjE)
  have b3: "fst (delete_task example_store ''s2'' ''id-1'') = fst (delete_task Map.empty ''s2'' ''id-1'')"
    using p2 by (elim conjE)
  from b1 r have reads': "get_all_tasks example_store ''s2'' None = Inr []"
    "get_task_by_id example_store ''s2'' ''id-1'' = Inl NotFound"
    "search_tasks_endpoint example_store ''s2'' ''bug'' = Inr []"
    "s_total (get_statistics example_store ''s2'') = 0"
    by (simp_all add: reads_def)
  show ?thesis
    by (intro conjI) (rule ne eq a1 a2 b1 reads' b2 [unfolded u0] b3 [unfolded d0])+
qed

text \<open>
  C5 (empty update, absent id). \<^verbatim>\<open>update_task\<close> with a change set that has no key fails
  with the 400 exception and returns the store it was given: the repository is not called,
  so no stored task and no \<^verbatim>\<open>updated_at\<close> changes. With a change set that has a key and an
  id the session's partition does not hold, it fails with the 404 exception, the store
  again unchanged.
\<close>

theorem update_task_rejections:
  "(dump_keys u = [] \<longrightarrow>
      update_task e st S tid u = (Inl BadRequest_no_fields, st) \<and>
      status_code BadRequest_no_fields = 400) \<and>
   (dump_keys u \<noteq> [] \<and> find_by_id st S tid = None \<longrightarrow>
      update_task e st S tid u = (Inl NotFound, st) \<and> status_code NotFound = 404)"
  by (simp add: update_task_def repo_update_def BadRequest_no_fields_def NotFound_def)

theorem update_task_rejections_witness:
  "dump_keys no_fields = [] \<and>
   find_by_id example_store ''s1'' ''id-1'' = Some (new_task_dict example_env example_draft) \<and>
   update_task example_env example_store ''s1'' ''id-1'' no_fields
     = (Inl (HTTPException 400 ''No fields to update''), example_store) \<and>
   dump_keys priority_1 \<noteq> [] \<and> find_by_id example_store ''s1'' ''other'' = None \<and>
   update_task example_env example_store ''s1'' ''other'' priority_1
     = (Inl (HTTPException 404 ''Task not found''), example_store)"
  using update_task_rejections [of no_fields example_env example_store "''s1''" "''id-1''"]
    update_task_rejections [of priority_1 example_env example_store "''s1''" "''other''"]
  by (simp add: no_fields_def priority_1_def dump_keys_def is_set_def find_by_id_def find_all_def
      example_store_s1 new_task_dict_def example_env_def BadRequest_no_fields_def NotFound_def)

subsection \<open>Creating and reading back\<close>

lemma TaskBase_title_valid:
  "strip v = v \<Longrightarrow> 3 \<le> length v \<Longrightarrow> length v \<le> 200 \<Longrightarrow> TaskBase_title v = Inr v"
  by (auto simp add: TaskBase_title_def title_not_empty_def)

lemma Task_of_dict_Inr:
  assumes "Task_of_dict d = Inr T"
  shows "t_id T = d_id d" and "d_priority d = Some (t_priority T)"
    and "d_status d = Some (t_status T)" and "d_tags d = Some (t_tags T)"
    and "t_description T = d_description d" and "t_due_date T = d_due_date d"
    and "t_created_at T = d_created_at d" and "t_updated_at T = d_updated_at d"
    and "\<exists>v. d_title d = Some v \<and> TaskBase_title v = Inr (t_title T)"
  using assms
  by (auto simp add: Task_of_dict_def split: option.splits sum.splits if_splits)

lemma find_append_last:
  "find P (xs @ [d]) = (case find P xs of Some x \<Rightarrow> Some x | None \<Rightarrow> if P d then Some d else None)"
  by (induction xs) auto

lemma find_None_iff_image: "find (\<lambda>t. d_id t = i) xs = None \<longleftrightarrow> i \<notin> d_id ` set xs"
  by (induction xs) auto

lemma strip_Fix_Bug: "strip ''Fix Bug'' = ''Fix Bug''"
  by (simp add: strip_def isspace_def)

lemma example_valid_draft: "valid_draft example_draft"
  by (simp add: valid_draft_def example_draft_def strip_Fix_Bug description_ok_def priority_ok_def)

lemma example_Task_of_dict: "Task_of_dict (new_task_dict example_env example_draft) = Inr example_Task"
  by (simp add: Task_of_dict_def new_task_dict_def example_env_def example_draft_def
      example_Task_def TaskBase_title_def title_not_empty_def strip_Fix_Bug description_ok_def
      priority_ok_def)

lemma example_create:
  "create_task example_env Map.empty ''s1'' example_draft = (Inr example_Task, example_store)"
  by (simp add: example_store_def create_task_eq example_Task_of_dict)

text \<open>
  What \<^verbatim>\<open>create_task\<close> does for a draft that meets the input contract (\<open>valid_draft\<close>):
  it returns a task and appends one dictionary to the session's partition. The task has
  status PENDING, the generated id, \<^verbatim>\<open>created_at\<close> and \<^verbatim>\<open>updated_at\<close> both equal to the
  clock reading, and the draft's title, description, priority, tags and due date; as a
  dictionary it is the one appended. A request body that gives only a title validates to a
  draft with priority 2, no tags, no description and no due date. \<^verbatim>\<open>TaskCreate\<close> does not
  establish the contract: see the drafts evaluated under C2 and C3 below.
\<close>

lemma create_task_on_valid_draft:
  "(valid_draft d \<longrightarrow>
      (\<exists>T. create_task e st S d = (Inr T, st(S \<mapsto> find_all st S @ [new_task_dict e d])) \<and>
           t_status T = PENDING \<and> t_id T = uuid4 e \<and>
           t_created_at T = utcnow e \<and> t_updated_at T = utcnow e \<and>
           t_title T = c_title d \<and> t_description T = c_description d \<and>
           t_priority T = c_priority d \<and> c_tags d = Some (t_tags T) \<and>
           t_due_date T = c_due_date d \<and>
           dict_of_Task T = new_task_dict e d)) \<and>
   (TaskCreate_validate (title_only v) = Inr d \<longrightarrow>
      c_priority d = 2 \<and> c_tags d = Some [] \<and> c_description d = None \<and> c_due_date d = None)"
proof (rule conjI; rule impI)
  assume v: "valid_draft d"
  then obtain g where g: "c_tags d = Some g" by (auto simp add: valid_draft_def)
  have t: "TaskBase_title (c_title d) = Inr (c_title d)"
    using v by (simp add: valid_draft_def TaskBase_title_valid)
  let ?T = "\<lparr>t_id = uuid4 e, t_title = c_title d, t_description = c_description d,
      t_priority = c_priority d, t_status = PENDING, t_tags = g, t_due_date = c_due_date d,
      t_created_at = utcnow e, t_updated_at = utcnow e\<rparr>"
  have "Task_of_dict (new_task_dict e d) = Inr ?T"
    using v by (simp add: Task_of_dict_def new_task_dict_def g t valid_draft_def)
  then have a: "create_task e st S d = (Inr ?T, st(S \<mapsto> find_all st S @ [new_task_dict e d]))"
    by (simp add: create_task_eq)
  have b: "dict_of_Task ?T = new_task_dict e d"
    by (simp add: dict_of_Task_def new_task_dict_def g)
  show "\<exists>T. create_task e st S d = (Inr T, st(S \<mapsto> find_all st S @ [new_task_dict e d])) \<and>
           t_status T = PENDING \<and> t_id T = uuid4 e \<and>
           t_created_at T = utcnow e \<and> t_updated_at T = utcnow e \<and>
           t_title T = c_title d \<and> t_description T = c_description d \<and>
           t_priority T = c_priority d \<and> c_tags d = Some (t_tags T) \<and>
           t_due_date T = c_due_date d \<and>
           dict_of_Task T = new_task_dict e d"
    by (rule exI [of _ ?T]) (simp add: a b g)
next
  assume "TaskCreate_validate (title_only v) = Inr d"
  then show "c_priority d = 2 \<and> c_tags d = Some [] \<and> c_description d = None \<and> c_due_date d = None"
    by (auto simp add: TaskCreate_validate_def title_only_def or_default_def
        split: sum.splits if_splits)
qed

lemma create_task_on_valid_draft_example:
  "valid_draft example_draft \<and>
   fst (create_task example_env Map.empty ''s1'' example_draft) = Inr example_Task \<and>
   snd (create_task example_env Map.empty ''s1'' example_draft) ''s1''
     = Some [dict_of_Task example_Task] \<and>
   t_status example_Task = PENDING \<and> t_tags example_Task = [] \<and>
   TaskCreate_validate (title_only ''Fix Bug'') = Inr example_draft \<and>
   c_priority example_draft = 2"
proof -
  note th = create_task_on_valid_draft [of example_draft example_env Map.empty "''s1''" "''Fix Bug''"]
  have v: "valid_draft example_draft" by (rule example_valid_draft)
  have d: "TaskCreate_validate (title_only ''Fix Bug'') = Inr example_draft"
    by (simp add: TaskCreate_validate_def title_only_def or_default_def TaskBase_title_def
        title_not_empty_def strip_Fix_Bug description_ok_def priority_ok_def example_draft_def)
  from th v obtain T where
    c: "create_task example_env Map.empty ''s1'' example_draft
          = (Inr T, Map.empty(''s1'' \<mapsto> find_all Map.empty ''s1'' @ [new_task_dict example_env example_draft]))"
    and s: "t_status T = PENDING"
    and g: "c_tags example_draft = Some (t_tags T)"
    and k: "dict_of_Task T = new_task_dict example_env example_draft"
    by blast
  from th d have p: "c_priority example_draft = 2" by blast
  from c have T: "T = example_Task" by (simp add: example_create)
  from g have g': "t_tags T = []" by (simp add: example_draft_def)
  show ?thesis using v c s g' k p d by (simp add: T find_all_def)
qed

text \<open>
  C8 (create/get round trip). If \<^verbatim>\<open>create_task\<close> returns a task and the generated id is
  not the id of a task already in the session's partition, then \<^verbatim>\<open>get_task_by_id\<close> on
  the resulting store, with the returned task's id, returns that same task.
\<close>

theorem create_get_round_trip:
  assumes "create_task e st S d = (Inr T, st')"
    and "uuid4 e \<notin> d_id ` set (find_all st S)"
  shows "get_task_by_id st' S (t_id T) = Inr T"
proof -
  let ?nd = "new_task_dict e d"
  from assms(1) have T: "Task_of_dict ?nd = Inr T"
    and st': "st' = st(S \<mapsto> find_all st S @ [?nd])"
    by (simp_all add: create_task_eq)
  have tid: "t_id T = uuid4 e"
    using Task_of_dict_Inr(1) [OF T] by (simp add: new_task_dict_def)
  have "find (\<lambda>t. d_id t = uuid4 e) (find_all st S) = None"
    using assms(2) by (simp add: find_None_iff_image)
  then have "find_by_id st' S (uuid4 e) = Some ?nd"
    by (simp add: find_by_id_def find_all_def st' find_append_last new_task_dict_def)
  then show ?thesis
    by (simp add: get_task_by_id_def tid T)
qed

theorem create_get_round_trip_witness:
  "create_task example_env Map.empty ''s1'' example_draft = (Inr example_Task, example_store) \<and>
   uuid4 example_env \<notin> d_id ` set (find_all Map.empty ''s1'') \<and>
   get_task_by_id example_store ''s1'' ''id-1'' = Inr example_Task"
  using create_get_round_trip [of example_env Map.empty "''s1''" example_draft example_Task example_store]
  by (simp add: example_create find_all_def example_Task_def)

subsection \<open>Updating\<close>

lemma dump_keys_no_id: "''id'' \<notin> set (dump_keys u) \<and> ''created_at'' \<notin> set (dump_keys u)"
  by (simp add: dump_keys_def)

lemma mutate_first_find_same:
  assumes "\<And>t. d_id (f t) = d_id t"
  shows "find (\<lambda>t. d_id t = i) (mutate_first i f xs) = map_option f (find (\<lambda>t. d_id t = i) xs)"
  by (induction xs) (simp_all add: assms)

lemma mutate_first_find_other:
  assumes "\<And>t. d_id (f t) = d_id t" and "j \<noteq> i"
  shows "find (\<lambda>t. d_id t = j) (mutate_first i f xs) = find (\<lambda>t. d_id t = j) xs"
  using assms(2) by (induction xs) (simp_all add: assms(1))

lemma mutate_first_length: "length (mutate_first i f xs) = length xs"
  by (induction xs) simp_all

lemma dict_update_id: "d_id ((dict_update t u)\<lparr>d_updated_at := n\<rparr>) = d_id t"
  by (simp add: dict_update_def)

lemma repo_update_found:
  assumes "find_by_id st S i = Some old"
  shows "repo_update e st S i u =
     (Some ((dict_update old u)\<lparr>d_updated_at := utcnow e\<rparr>),
      st(S \<mapsto> mutate_first i (\<lambda>t. (dict_update t u)\<lparr>d_updated_at := utcnow e\<rparr>) (find_all st S)))"
  using assms by (simp add: repo_update_def Let_def)

lemma example_dict: "new_task_dict example_env example_draft = dict_of_Task example_Task"
  by (simp add: dict_of_Task_def example_Task_def new_task_dict_def example_env_def
      example_draft_def)

lemma example_find_all: "find_all example_store ''s1'' = [dict_of_Task example_Task]"
  by (simp add: find_all_def example_store_s1 example_dict)


text \<open>
  C4 (partial-update frame), amended. \<^verbatim>\<open>update_task\<close> with a change set that has a key,
  for an id the session's partition holds, leaves the first dictionary with that id in
  place with the same id and \<^verbatim>\<open>created_at\<close>. \<^verbatim>\<open>updated_at\<close> becomes the clock reading; it
  is at or above the previous stamp exactly when the reading is, and nothing in the code
  keeps the reading from being earlier. Each of the six fields a change set can name takes
  the given value when the change set gives one (\<^verbatim>\<open>None\<close> included) and keeps its value
  when it does not. The keys of a change set never include \<^verbatim>\<open>id\<close> or \<^verbatim>\<open>created_at\<close>, and
  a lookup of any other id gives what it gave before.
\<close>

theorem update_task_frame:
  assumes "dump_keys u \<noteq> []"
    and "find_by_id st S i = Some old"
  shows "\<exists>new. find_by_id (snd (update_task e st S i u)) S i = Some new \<and>
      fst (update_task e st S i u) = Task_of_dict new \<and>
      d_id new = d_id old \<and> d_created_at new = d_created_at old \<and>
      d_updated_at new = utcnow e \<and>
      (d_updated_at old \<le> d_updated_at new) = (d_updated_at old \<le> utcnow e) \<and>
      d_title new = or_default (u_title u) (d_title old) \<and>
      d_description new = or_default (u_description u) (d_description old) \<and>
      d_status new = or_default (u_status u) (d_status old) \<and>
      d_priority new = or_default (u_priority u) (d_priority old) \<and>
      d_tags new = or_default (u_tags u) (d_tags old) \<and>
      d_due_date new = or_default (u_due_date u) (d_due_date old) \<and>
      ''id'' \<notin> set (dump_keys u) \<and> ''created_at'' \<notin> set (dump_keys u) \<and>
      (\<forall>j. j \<noteq> i \<longrightarrow> find_by_id (snd (update_task e st S i u)) S j = find_by_id st S j)"
proof -
  let ?f = "\<lambda>t. (dict_update t u)\<lparr>d_updated_at := utcnow e\<rparr>"
  let ?st' = "st(S \<mapsto> mutate_first i ?f (find_all st S))"
  have upd: "update_task e st S i u = (Task_of_dict (?f old), ?st')"
    using assms(1) by (simp add: update_task_def repo_update_found [OF assms(2)])
  have fid: "\<And>t. d_id (?f t) = d_id t" by (simp add: dict_update_def)
  have same: "find_by_id ?st' S i = Some (?f old)"
    using assms(2) mutate_first_find_same [of ?f i "find_all st S", OF fid]
    by (simp add: find_by_id_def find_all_def)
  have other: "\<And>j. j \<noteq> i \<Longrightarrow> find_by_id ?st' S j = find_by_id st S j"
  proof -
    fix j :: string assume "j \<noteq> i"
    then have "find (\<lambda>t. d_id t = j) (mutate_first i ?f (find_all st S))
        = find (\<lambda>t. d_id t = j) (find_all st S)"
      by (rule mutate_first_find_other [OF fid])
    then show "find_by_id ?st' S j = find_by_id st S j"
      by (simp add: find_by_id_def find_all_def)
  qed
  show ?thesis
    apply (rule exI [of _ "?f old"])
    apply (simp only: upd fst_conv snd_conv same)
    using other apply (simp add: dict_update_def dump_keys_no_id)
    done
qed

theorem update_task_frame_witness:
  "dump_keys done_update \<noteq> [] \<and>
   find_by_id example_store ''s1'' ''id-1'' = Some (dict_of_Task example_Task) \<and>
   d_updated_at (dict_of_Task example_Task) \<le> utcnow later_env \<and>
   find_by_id (snd (update_task later_env example_store ''s1'' ''id-1'' done_update)) ''s1'' ''id-1''
     = Some ((dict_of_Task example_Task)
          \<lparr>d_status := Some COMPLETED, d_updated_at := ''2024-01-02T08:30:00''\<rparr>) \<and>
   ''2024-01-01T00:00:00'' \<le> ''2024-01-02T08:30:00''"
proof -
  have k: "dump_keys done_update \<noteq> []"
    by (simp add: done_update_def no_fields_def dump_keys_def is_set_def)
  have f: "find_by_id example_store ''s1'' ''id-1'' = Some (dict_of_Task example_Task)"
    by (simp add: find_by_id_def find_all_def example_store_s1 new_task_dict_def example_env_def
        example_draft_def dict_of_Task_def example_Task_def)
  have c: "d_updated_at (dict_of_Task example_Task) \<le> utcnow later_env"
    by (simp add: dict_of_Task_def example_Task_def later_env_def)
  from update_task_frame [OF k f] c obtain new where
    n: "find_by_id (snd (update_task later_env example_store ''s1'' ''id-1'' done_update)) ''s1'' ''id-1'' = Some new"
    and "d_id new = d_id (dict_of_Task example_Task)"
    and "d_created_at new = d_created_at (dict_of_Task example_Task)"
    and "d_updated_at new = utcnow later_env"
    and o: "d_updated_at (dict_of_Task example_Task) \<le> d_updated_at new"
    and "d_title new = or_default (u_title done_update) (d_title (dict_of_Task example_Task))"
    and "d_description new = or_default (u_description done_update) (d_description (dict_of_Task example_Task))"
    and "d_status new = or_default (u_status done_update) (d_status (dict_of_Task example_Task))"
    and "d_priority new = or_default (u_priority done_update) (d_priority (dict_of_Task example_Task))"
    and "d_tags new = or_default (u_tags done_update) (d_tags (dict_of_Task example_Task))"
    and "d_due_date new = or_default (u_due_date done_update) (d_due_date (dict_of_Task example_Task))"
    by blast
  then have "new = (dict_of_Task example_Task)
          \<lparr>d_status := Some COMPLETED, d_updated_at := ''2024-01-02T08:30:00''\<rparr>"
    by (cases new) (simp add: dict_of_Task_def example_Task_def done_update_def no_fields_def
        or_default_def later_env_def)
  with k f c n o show ?thesis by (simp add: dict_of_Task_def example_Task_def)
qed

text \<open>
  With a clock reading earlier than the stored stamp, the update succeeds and
  \<^verbatim>\<open>updated_at\<close> goes down: the reading is the wall clock's, taken as it is.
\<close>

theorem clock_set_back_counterexample:
  "dump_keys priority_1 \<noteq> [] \<and>
   find_by_id example_store ''s1'' ''id-1'' = Some (dict_of_Task example_Task) \<and>
   d_updated_at (dict_of_Task example_Task) = ''2024-01-01T00:00:00'' \<and>
   fst (update_task earlier_env example_store ''s1'' ''id-1'' priority_1)
     = Inr (example_Task\<lparr>t_priority := 1, t_updated_at := ''2023-12-31T23:59:59''\<rparr>) \<and>
   map d_updated_at (find_all (snd (update_task earlier_env example_store ''s1'' ''id-1'' priority_1)) ''s1'')
     = [''2023-12-31T23:59:59''] \<and>
   ''2023-12-31T23:59:59'' < ''2024-01-01T00:00:00''"
proof -
  have k: "dump_keys priority_1 \<noteq> []"
    by (simp add: priority_1_def no_fields_def dump_keys_def is_set_def)
  have f: "find_by_id example_store ''s1'' ''id-1'' = Some (dict_of_Task example_Task)"
    by (simp add: find_by_id_def example_find_all dict_of_Task_def example_Task_def)
  have u: "update_task earlier_env example_store ''s1'' ''id-1'' priority_1 =
     (Inr (example_Task\<lparr>t_priority := 1, t_updated_at := ''2023-12-31T23:59:59''\<rparr>),
      example_store(''s1'' \<mapsto> [(dict_of_Task example_Task)
         \<lparr>d_priority := Some 1, d_updated_at := ''2023-12-31T23:59:59''\<rparr>]))"
    by (simp add: update_task_def repo_update_found [OF f] example_find_all
      priority_1_def no_fields_def dump_keys_def is_set_def dict_update_def or_default_def
      earlier_env_def dict_of_Task_def example_Task_def Task_of_dict_def TaskBase_title_def
      title_not_empty_def strip_Fix_Bug description_ok_def priority_ok_def)
  have s: "d_updated_at (dict_of_Task example_Task) = ''2024-01-01T00:00:00''"
    by (simp add: dict_of_Task_def example_Task_def)
  have l: "''2023-12-31T23:59:59'' < ''2024-01-01T00:00:00''" by simp
  show ?thesis using k s l by (simp add: u f find_all_def)
qed

subsection \<open>Listing with a status filter\<close>




subsection \<open>Titles at the boundary\<close>

text \<open>
  What the title validators guarantee: an accepted title is the stripped input, is not
  empty, has at most 200 characters and carries no surrounding whitespace. The lower bound
  of 3 is checked before stripping, so it bounds the input, not the accepted title.
\<close>

lemma strip_Nil_or_ends:
  "strip s = [] \<or> (\<not> isspace (hd (strip s)) \<and> \<not> isspace (last (strip s)))"
proof (cases "strip s = []")
  case True
  then show ?thesis by simp
next
  case False
  let ?t = "dropWhile isspace s"
  let ?u = "dropWhile isspace (rev ?t)"
  have u: "?u \<noteq> []" using False by (simp add: strip_def)
  have t: "?t \<noteq> []"
  proof
    assume "?t = []"
    then have "?u = []" by (simp del: dropWhile_eq_Nil_conv)
    with u show False by (simp del: dropWhile_eq_Nil_conv)
  qed
  have "\<not> isspace (hd ?u)" using u by (rule hd_dropWhile)
  then have l: "\<not> isspace (last (strip s))"
    using u by (simp add: strip_def last_rev)
  have "rev ?t = takeWhile isspace (rev ?t) @ ?u" by simp
  then have "last (rev ?t) = last ?u" using u by (metis last_appendR)
  then have "last ?u = hd ?t" using t by (simp add: last_rev)
  moreover have "\<not> isspace (hd ?t)" using t by (rule hd_dropWhile)
  ultimately have "\<not> isspace (hd (strip s))"
    using u by (simp add: strip_def hd_rev)
  with l show ?thesis by simp
qed

lemma length_strip: "length (strip s) \<le> length s"
proof -
  have "length (dropWhile isspace (rev (dropWhile isspace s))) \<le> length (rev (dropWhile isspace s))"
    by (rule length_dropWhile_le)
  also have "\<dots> \<le> length s" by (simp add: length_dropWhile_le)
  finally show ?thesis by (simp add: strip_def)
qed

lemma strip_fixed: "t = [] \<or> (\<not> isspace (hd t) \<and> \<not> isspace (last t)) \<Longrightarrow> strip t = t"
proof (cases "t = []")
  case True
  then show ?thesis by (simp add: strip_def)
next
  case False
  assume "t = [] \<or> (\<not> isspace (hd t) \<and> \<not> isspace (last t))"
  with False have h: "\<not> isspace (hd t)" and l: "\<not> isspace (last t)" by simp_all
  from False h have a: "dropWhile isspace t = t" by (cases t) simp_all
  from False l have "\<not> isspace (hd (rev t))" by (simp add: hd_rev)
  with False have "dropWhile isspace (rev t) = rev t" by (cases "rev t") simp_all
  with a show ?thesis by (simp add: strip_def)
qed

lemma strip_idem: "strip (strip s) = strip s"
  by (rule strip_fixed) (rule strip_Nil_or_ends)

lemma accepted_title_shape:
  assumes "TaskBase_title v = Inr t"
  shows "t = strip v" and "t \<noteq> []" and "length t \<le> 200"
    and "\<not> isspace (hd t)" and "\<not> isspace (last t)" and "strip t = t"
proof -
  from assms have t: "t = strip v" and n: "strip v \<noteq> []" and l: "length v \<le> 200"
    by (auto simp add: TaskBase_title_def title_not_empty_def split: if_splits)
  show "t = strip v" by (rule t)
  show "t \<noteq> []" using t n by simp
  show "length t \<le> 200" using length_strip [of v] l t by simp
  show "\<not> isspace (hd t)" using strip_Nil_or_ends [of v] t n by simp
  show "\<not> isspace (last t)" using strip_Nil_or_ends [of v] t n by simp
  show "strip t = t" using t by (simp add: strip_idem)
qed

lemma strip_padded_a: "strip ''  a  '' = ''a''"
  by (simp add: strip_def isspace_def)

lemma strip_a: "strip ''a'' = ''a''"
  by (simp add: strip_def isspace_def)

lemma strip_padded_ab: "strip '' ab'' = ''ab''"
  by (simp add: strip_def isspace_def)

lemma strip_ab: "strip ''ab'' = ''ab''"
  by (simp add: strip_def isspace_def)

lemma validate_padded_a: "TaskCreate_validate (title_only ''  a  '') = Inr short_draft"
  by (simp add: TaskCreate_validate_def title_only_def TaskBase_title_def title_not_empty_def
      strip_padded_a or_default_def description_ok_def priority_ok_def short_draft_def)

lemma validate_padded_ab: "TaskCreate_validate (title_only '' ab'') = Inr ab_draft"
  by (simp add: TaskCreate_validate_def title_only_def TaskBase_title_def title_not_empty_def
      strip_padded_ab or_default_def description_ok_def priority_ok_def ab_draft_def)

lemma Task_of_short: "Task_of_dict (new_task_dict e short_draft) = Inl ValidationError"
  by (simp add: Task_of_dict_def new_task_dict_def short_draft_def TaskBase_title_def)

lemma Task_of_ab: "Task_of_dict (new_task_dict e ab_draft) = Inl ValidationError"
  by (simp add: Task_of_dict_def new_task_dict_def ab_draft_def TaskBase_title_def)

lemma validate_null_title: "TaskUpdate_validate null_title = Inr null_title"
  by (simp add: TaskUpdate_validate_def null_title_def no_fields_def TaskUpdate_title_def
      title_not_empty_if_present_def or_default_def description_ok_def)

lemma validate_null_status: "TaskUpdate_validate null_status = Inr null_status"
  by (simp add: TaskUpdate_validate_def null_status_def no_fields_def
      or_default_def description_ok_def)

lemma example_find_by_id: "find_by_id example_store ''s1'' ''id-1'' = Some (dict_of_Task example_Task)"
  by (simp add: find_by_id_def example_find_all dict_of_Task_def example_Task_def)

lemma update_null_title:
  "update_task later_env example_store ''s1'' ''id-1'' null_title =
     (Inl ValidationError,
      example_store(''s1'' \<mapsto> [(dict_of_Task example_Task)
         \<lparr>d_title := None, d_updated_at := ''2024-01-02T08:30:00''\<rparr>]))"
  by (simp add: update_task_def repo_update_found [OF example_find_by_id] example_find_all
      null_title_def no_fields_def dump_keys_def is_set_def dict_update_def or_default_def
      later_env_def dict_of_Task_def example_Task_def Task_of_dict_def)

lemma update_null_status:
  "update_task later_env example_store ''s1'' ''id-1'' null_status =
     (Inl ValidationError,
      example_store(''s1'' \<mapsto> [(dict_of_Task example_Task)
         \<lparr>d_status := None, d_updated_at := ''2024-01-02T08:30:00''\<rparr>]))"
  by (simp add: update_task_def repo_update_found [OF example_find_by_id] example_find_all
      null_status_def no_fields_def dump_keys_def is_set_def dict_update_def or_default_def
      later_env_def dict_of_Task_def example_Task_def Task_of_dict_def)

text \<open>
  C3 (title invariant), evaluated where the code departs from it. The body
  \<^verbatim>\<open>{"title": "  a  "}\<close> passes \<^verbatim>\<open>TaskCreate\<close> (five characters) and is stripped to
  \<^verbatim>\<open>"a"\<close>; \<^verbatim>\<open>create_task\<close> stores the dictionary with that one-character title and then
  raises, because \<^verbatim>\<open>Task\<close> asks for three characters. The change set
  \<^verbatim>\<open>{"title": null}\<close> passes \<^verbatim>\<open>TaskUpdate\<close>; \<^verbatim>\<open>update_task\<close> stores \<^verbatim>\<open>None\<close> as the title
  and then raises.
\<close>

theorem short_and_null_titles_stored:
  "TaskCreate_validate (title_only ''  a  '') = Inr short_draft \<and>
   create_task example_env Map.empty ''s1'' short_draft =
     (Inl ValidationError, [''s1'' \<mapsto> [new_task_dict example_env short_draft]]) \<and>
   d_title (new_task_dict example_env short_draft) = Some ''a'' \<and>
   TaskUpdate_validate null_title = Inr null_title \<and>
   fst (update_task later_env example_store ''s1'' ''id-1'' null_title) = Inl ValidationError \<and>
   map d_title (find_all (snd (update_task later_env example_store ''s1'' ''id-1'' null_title)) ''s1'')
     = [None]"
proof -
  have a: "create_task example_env Map.empty ''s1'' short_draft =
     (Inl ValidationError, [''s1'' \<mapsto> [new_task_dict example_env short_draft]])"
    by (simp add: create_task_eq Task_of_short find_all_def)
  have b: "d_title (new_task_dict example_env short_draft) = Some ''a''"
    by (simp add: new_task_dict_def short_draft_def)
  show ?thesis
    by (simp add: validate_padded_a a b validate_null_title update_null_title find_all_def)
qed

lemma validate_null_tags: "TaskCreate_validate null_tags_body = Inr null_tags_draft"
  by (simp add: TaskCreate_validate_def null_tags_body_def null_tags_draft_def TaskBase_title_def
      title_not_empty_def strip_def isspace_def or_default_def description_ok_def priority_ok_def)

lemma Task_of_null_tags: "Task_of_dict (new_task_dict e null_tags_draft) = Inl ValidationError"
  by (simp add: Task_of_dict_def new_task_dict_def null_tags_draft_def)

text \<open>
  C2 (create postcondition), evaluated where the code departs from it. Two drafts that
  \<^verbatim>\<open>TaskCreate\<close> accepts, both with a stripped title and a priority between 1 and 4: the
  one made of \<^verbatim>\<open>{"title": "  a  "}\<close>, whose title is \<^verbatim>\<open>"a"\<close>, and the one made of
  \<^verbatim>\<open>{"title": "abc", "tags": null}\<close>, whose tags are \<^verbatim>\<open>None\<close>. For each, \<^verbatim>\<open>create_task\<close>
  appends the dictionary to the partition and then raises instead of returning a task,
  because \<^verbatim>\<open>Task\<close> asks for a title of three characters and for a list of tags.
\<close>

theorem create_task_raises_on_accepted_drafts:
  "TaskCreate_validate (title_only ''  a  '') = Inr short_draft \<and>
   strip (c_title short_draft) = c_title short_draft \<and> priority_ok (c_priority short_draft) \<and>
   create_task example_env Map.empty ''s1'' short_draft =
     (Inl ValidationError, [''s1'' \<mapsto> [new_task_dict example_env short_draft]]) \<and>
   TaskCreate_validate null_tags_body = Inr null_tags_draft \<and>
   strip (c_title null_tags_draft) = c_title null_tags_draft \<and>
   priority_ok (c_priority null_tags_draft) \<and>
   create_task example_env Map.empty ''s1'' null_tags_draft =
     (Inl ValidationError, [''s1'' \<mapsto> [new_task_dict example_env null_tags_draft]])"
proof -
  have a: "create_task example_env Map.empty ''s1'' short_draft =
     (Inl ValidationError, [''s1'' \<mapsto> [new_task_dict example_env short_draft]])"
    by (simp add: create_task_eq Task_of_short find_all_def)
  have b: "create_task example_env Map.empty ''s1'' null_tags_draft =
     (Inl ValidationError, [''s1'' \<mapsto> [new_task_dict example_env null_tags_draft]])"
    by (simp add: create_task_eq Task_of_null_tags find_all_def)
  have c: "strip (c_title short_draft) = c_title short_draft" "priority_ok (c_priority short_draft)"
    by (simp_all add: short_draft_def strip_a priority_ok_def)
  have d: "strip (c_title null_tags_draft) = c_title null_tags_draft"
    "priority_ok (c_priority null_tags_draft)"
    by (simp_all add: null_tags_draft_def strip_def isspace_def priority_ok_def)
  show ?thesis by (simp only: a b c d validate_padded_a validate_null_tags simp_thms)
qed

subsection \<open>Stores that hold tasks only\<close>

text \<open>
  Calls that meet the input contract keep every partition free of dictionaries that are
  not tasks: this is the invariant under which list, search and statistics behave as
  described.
\<close>

lemma is_Task_dict_ex:
  "is_Task_dict d \<longleftrightarrow> (\<exists>T. Task_of_dict d = Inr T \<and> dict_of_Task T = d)"
  by (auto simp add: is_Task_dict_def split: sum.splits)

lemma is_Task_dict_iff:
  "is_Task_dict d \<longleftrightarrow>
     (\<exists>t p s g. d_title d = Some t \<and> strip t = t \<and> 3 \<le> length t \<and> length t \<le> 200 \<and>
        d_priority d = Some p \<and> priority_ok p \<and> d_status d = Some s \<and> d_tags d = Some g \<and>
        description_ok (d_description d))"
proof
  assume "is_Task_dict d"
  then obtain T where T: "Task_of_dict d = Inr T" and e: "dict_of_Task T = d"
    by (auto simp add: is_Task_dict_def split: sum.splits)
  from T obtain v where v: "d_title d = Some v" "TaskBase_title v = Inr (t_title T)"
    and rest: "d_priority d = Some (t_priority T)" "d_status d = Some (t_status T)"
      "d_tags d = Some (t_tags T)"
    using Task_of_dict_Inr [OF T] by auto
  from e have "d_title d = Some (t_title T)" by (auto simp add: dict_of_Task_def)
  with v have s: "TaskBase_title v = Inr v" by simp
  then have "strip v = v" "3 \<le> length v" "length v \<le> 200"
    by (auto simp add: TaskBase_title_def title_not_empty_def split: if_splits)
  moreover from T have "priority_ok (t_priority T)" "description_ok (d_description d)"
    using rest v by (auto simp add: Task_of_dict_def split: sum.splits if_splits)
  ultimately show "\<exists>t p s g. d_title d = Some t \<and> strip t = t \<and> 3 \<le> length t \<and> length t \<le> 200 \<and>
        d_priority d = Some p \<and> priority_ok p \<and> d_status d = Some s \<and> d_tags d = Some g \<and>
        description_ok (d_description d)"
    using v rest by auto
next
  assume "\<exists>t p s g. d_title d = Some t \<and> strip t = t \<and> 3 \<le> length t \<and> length t \<le> 200 \<and>
        d_priority d = Some p \<and> priority_ok p \<and> d_status d = Some s \<and> d_tags d = Some g \<and>
        description_ok (d_description d)"
  then obtain t p s g where h: "d_title d = Some t" "strip t = t" "3 \<le> length t" "length t \<le> 200"
        "d_priority d = Some p" "priority_ok p" "d_status d = Some s" "d_tags d = Some g"
        "description_ok (d_description d)" by blast
  have "TaskBase_title t = Inr t" using h(2-4) by (rule TaskBase_title_valid)
  with h show "is_Task_dict d"
    by (cases d) (simp add: is_Task_dict_def Task_of_dict_def dict_of_Task_def)
qed

lemma is_Task_dict_new: "valid_draft d \<Longrightarrow> is_Task_dict (new_task_dict e d)"
  by (auto simp add: is_Task_dict_iff valid_draft_def new_task_dict_def)

lemma is_Task_dict_update:
  assumes "is_Task_dict d" and "valid_update u"
  shows "is_Task_dict ((dict_update d u)\<lparr>d_updated_at := n\<rparr>)"
proof -
  from assms(1) obtain t p s g where h: "d_title d = Some t" "strip t = t" "3 \<le> length t"
      "length t \<le> 200" "d_priority d = Some p" "priority_ok p" "d_status d = Some s"
      "d_tags d = Some g" "description_ok (d_description d)"
    by (auto simp add: is_Task_dict_iff)
  show ?thesis
    unfolding is_Task_dict_iff
    using h assms(2)
    by (auto simp add: valid_update_def dict_update_def or_default_def
        split: field.splits option.splits)
qed

lemma mutate_first_all:
  "(\<forall>d \<in> set ds. P d) \<Longrightarrow> (\<And>d. P d \<Longrightarrow> P (f d)) \<Longrightarrow> \<forall>d \<in> set (mutate_first i f ds). P d"
  by (induction ds) auto

lemma valid_partition_create:
  assumes "valid_draft d" and "\<forall>x \<in> set (find_all st S). is_Task_dict x"
  shows "\<forall>x \<in> set (find_all (snd (create_task e st S' d)) S). is_Task_dict x"
proof (cases "S' = S")
  case True
  then show ?thesis
    using assms by (simp add: create_task_eq find_all_def is_Task_dict_new)
next
  case False
  then have "find_all (snd (create_task e st S' d)) S = find_all st S"
    by (intro find_all_cong create_task_other)
  with assms(2) show ?thesis by simp
qed

lemma valid_partition_update:
  assumes "valid_update u" and "\<forall>x \<in> set (find_all st S). is_Task_dict x"
  shows "\<forall>x \<in> set (find_all (snd (update_task e st S' i u)) S). is_Task_dict x"
proof (cases "S' = S")
  case False
  then have "find_all (snd (update_task e st S' i u)) S = find_all st S"
    by (intro find_all_cong update_task_other)
  with assms(2) show ?thesis by simp
next
  case True
  show ?thesis
  proof (cases "find_by_id st S i")
    case None
    then show ?thesis using assms(2) True
      by (simp add: update_task_snd repo_update_def)
  next
    case (Some old)
    let ?f = "\<lambda>t. (dict_update t u)\<lparr>d_updated_at := utcnow e\<rparr>"
    have "\<forall>x \<in> set (mutate_first i ?f (find_all st S)). is_Task_dict x"
      using assms(2) by (rule mutate_first_all) (rule is_Task_dict_update [OF _ assms(1)])
    then show ?thesis using assms(2) True
      by (simp add: update_task_snd repo_update_found [OF Some] find_all_def)
  qed
qed

lemma valid_partition_delete:
  assumes "\<forall>x \<in> set (find_all st S). is_Task_dict x"
  shows "\<forall>x \<in> set (find_all (snd (delete_task st S' i)) S). is_Task_dict x"
    and "\<forall>x \<in> set (find_all (delete_all_tasks st S') S). is_Task_dict x"
proof -
  show "\<forall>x \<in> set (find_all (snd (delete_task st S' i)) S). is_Task_dict x"
  proof (cases "S' = S")
    case False
    then have "find_all (snd (delete_task st S' i)) S = find_all st S"
      by (intro find_all_cong delete_task_other)
    with assms show ?thesis by simp
  next
    case True
    show ?thesis
    proof (cases "find_by_id st S i")
      case None
      then show ?thesis using assms True by (simp add: delete_task_snd repo_delete_def)
    next
      case (Some old)
      have "set (remove1 old (find_all st S)) \<subseteq> set (find_all st S)" by (rule set_remove1_subset)
      then show ?thesis using assms True Some
        by (auto simp add: delete_task_snd repo_delete_def find_all_def)
    qed
  qed
  show "\<forall>x \<in> set (find_all (delete_all_tasks st S') S). is_Task_dict x"
    using assms by (auto simp add: delete_all_tasks_def find_all_def split: option.splits)
qed

subsection \<open>Statistics\<close>

text \<open>
  Each bucket counts the dictionaries with exactly that status, the total is the length of
  the partition, and the four buckets add up to the total when every stored status is one
  of the four values.
\<close>

lemma status_is_value: "status_is (status_value v) d \<longleftrightarrow> d_status d = Some v"
proof (cases "d_status d")
  case None
  then show ?thesis by (simp add: status_is_def)
next
  case (Some w)
  then show ?thesis by (cases v; cases w) (simp_all add: status_is_def)
qed

lemma status_is_value_fun: "status_is (status_value v) = (\<lambda>d. d_status d = Some v)"
  by (rule ext) (rule status_is_value)

lemma count_status_eq: "count_status v ds = int (length (filter (\<lambda>d. d_status d = Some v) ds))"
  by (simp add: count_status_def status_is_value_fun)

lemma counts_sum:
  "(\<forall>d \<in> set ds. d_status d \<noteq> None) \<Longrightarrow>
   count_status PENDING ds + count_status IN_PROGRESS ds + count_status COMPLETED ds
     + count_status CANCELLED ds = int (length ds)"
proof (induction ds)
  case Nil
  then show ?case by (simp add: count_status_eq)
next
  case (Cons d ds)
  then obtain v where v: "d_status d = Some v" by auto
  from Cons have "count_status PENDING ds + count_status IN_PROGRESS ds + count_status COMPLETED ds
     + count_status CANCELLED ds = int (length ds)" by simp
  then show ?case using v by (cases v) (simp_all add: count_status_eq)
qed

lemma statistics_on_valid_statuses:
  "s_total (get_statistics st S) = int (length (find_all st S))"
  "s_pending (get_statistics st S) = int (length (filter (\<lambda>d. d_status d = Some PENDING) (find_all st S)))"
  "s_in_progress (get_statistics st S) = int (length (filter (\<lambda>d. d_status d = Some IN_PROGRESS) (find_all st S)))"
  "s_completed (get_statistics st S) = int (length (filter (\<lambda>d. d_status d = Some COMPLETED) (find_all st S)))"
  "s_cancelled (get_statistics st S) = int (length (filter (\<lambda>d. d_status d = Some CANCELLED) (find_all st S)))"
  "(\<forall>d \<in> set (find_all st S). d_status d \<noteq> None) \<Longrightarrow>
     s_pending (get_statistics st S) + s_in_progress (get_statistics st S)
       + s_completed (get_statistics st S) + s_cancelled (get_statistics st S)
     = s_total (get_statistics st S)"
  by (simp_all add: get_statistics_def Let_def count_status_eq [symmetric] counts_sum)

text \<open>
  C6 (statistics), evaluated where the code departs from it. The change set
  \<^verbatim>\<open>{"status": null}\<close> passes \<^verbatim>\<open>TaskUpdate\<close>; \<^verbatim>\<open>update_task\<close> stores \<^verbatim>\<open>None\<close> as the
  status of the task and then raises. The statistics of the session are then a total of 1
  with all four buckets 0.
\<close>

theorem statistics_after_null_status:
  "TaskUpdate_validate null_status = Inr null_status \<and>
   fst (update_task later_env example_store ''s1'' ''id-1'' null_status) = Inl ValidationError \<and>
   get_statistics (snd (update_task later_env example_store ''s1'' ''id-1'' null_status)) ''s1''
     = \<lparr>s_total = 1, s_pending = 0, s_in_progress = 0, s_completed = 0, s_cancelled = 0\<rparr>"
  by (simp add: validate_null_status update_null_status get_statistics_def find_all_def
      count_status_def status_is_def)

subsection \<open>Search\<close>

text \<open>
  \<open>contains\<close> is the substring test. On a partition that holds tasks only, a query of at
  least two characters returns, in order, the tasks whose lower-cased title contains the
  lower-cased query or that have a description whose lower-cased text contains it; a
  shorter query is refused with the 400 exception.
\<close>

lemma startswith_iff: "startswith s p \<longleftrightarrow> (\<exists>ss. s = p @ ss)"
  by (induction s p rule: startswith.induct) auto

lemma contains_iff: "contains s q \<longleftrightarrow> (\<exists>ps ss. s = ps @ q @ ss)"
proof (induction s)
  case Nil
  then show ?case by auto
next
  case (Cons c cs)
  show ?case
  proof
    assume "contains (c # cs) q"
    then consider "startswith (c # cs) q" | "contains cs q" by auto
    then show "\<exists>ps ss. c # cs = ps @ q @ ss"
    proof cases
      case 1
      then obtain ss where "c # cs = q @ ss" by (auto simp add: startswith_iff)
      then have "c # cs = [] @ q @ ss" by simp
      then show ?thesis by blast
    next
      case 2
      then obtain ps ss where "cs = ps @ q @ ss" using Cons.IH by auto
      then have "c # cs = (c # ps) @ q @ ss" by simp
      then show ?thesis by blast
    qed
  next
    assume "\<exists>ps ss. c # cs = ps @ q @ ss"
    then obtain ps ss where e: "c # cs = ps @ q @ ss" by auto
    show "contains (c # cs) q"
    proof (cases ps)
      case Nil
      with e have "startswith (c # cs) q" by (auto simp add: startswith_iff)
      then show ?thesis by simp
    next
      case (Cons p ps')
      with e have "cs = ps' @ q @ ss" by simp
      then have "contains cs q" using Cons.IH by auto
      then show ?thesis by simp
    qed
  qed
qed

lemma search_filter_titled:
  "(\<forall>d \<in> set ds. d_title d \<noteq> None) \<Longrightarrow>
   search_filter q ds = Inr (filter (\<lambda>d. search_match q d = Inr True) ds)"
proof (induction ds)
  case Nil
  then show ?case by simp
next
  case (Cons d ds)
  then obtain v where v: "d_title d = Some v" by auto
  then obtain b where b: "search_match q d = Inr b" by (simp add: search_match_def)
  from Cons have "search_filter q ds = Inr (filter (\<lambda>d. search_match q d = Inr True) ds)" by simp
  with b show ?case by simp
qed

lemma Task_list_valid:
  "(\<forall>d \<in> set ds. is_Task_dict d) \<Longrightarrow>
   \<exists>ts. Task_list ds = Inr ts \<and> map dict_of_Task ts = ds"
proof (induction ds)
  case Nil
  then show ?case by simp
next
  case (Cons d ds)
  then obtain T where T: "Task_of_dict d = Inr T" "dict_of_Task T = d"
    by (auto simp add: is_Task_dict_ex)
  from Cons obtain ts where ts: "Task_list ds = Inr ts" "map dict_of_Task ts = ds" by auto
  from T ts show ?case by simp
qed

lemma search_on_valid_partition:
  assumes "\<forall>d \<in> set (find_all st S). is_Task_dict d"
    and "2 \<le> length q"
  shows "\<exists>ts. search_tasks_endpoint st S q = Inr ts \<and>
           map dict_of_Task ts =
             filter (\<lambda>d. \<exists>v. d_title d = Some v \<and>
                        ((\<exists>ps ss. lower v = ps @ lower q @ ss) \<or>
                         (\<exists>s ps ss. d_description d = Some s \<and> lower s = ps @ lower q @ ss)))
               (find_all st S)"
proof -
  let ?ds = "find_all st S"
  let ?P = "\<lambda>d. search_match (lower q) d = Inr True"
  have titled: "\<forall>d \<in> set ?ds. d_title d \<noteq> None"
  proof
    fix d assume "d \<in> set ?ds"
    with assms(1) obtain T where "dict_of_Task T = d" by (auto simp add: is_Task_dict_ex)
    then show "d_title d \<noteq> None" by (auto simp add: dict_of_Task_def)
  qed
  then have f: "search_filter (lower q) ?ds = Inr (filter ?P ?ds)"
    by (rule search_filter_titled)
  have "\<forall>d \<in> set (filter ?P ?ds). is_Task_dict d"
    using assms(1) by simp
  then obtain ts where ts: "Task_list (filter ?P ?ds) = Inr ts" "map dict_of_Task ts = filter ?P ?ds"
    using Task_list_valid by blast
  have q: "lower q \<noteq> []" using assms(2) by (auto simp add: lower_def)
  have P: "?P d \<longleftrightarrow> (\<exists>v. d_title d = Some v \<and>
                        ((\<exists>ps ss. lower v = ps @ lower q @ ss) \<or>
                         (\<exists>s ps ss. d_description d = Some s \<and> lower s = ps @ lower q @ ss)))" for d
  proof (cases "d_title d")
    case None
    then show ?thesis by (simp add: search_match_def)
  next
    case (Some v)
    show ?thesis
    proof (cases "d_description d")
      case None
      with Some show ?thesis by (simp add: search_match_def contains_iff)
    next
      case (Some s)
      have "s \<noteq> [] \<and> contains (lower s) (lower q) \<longleftrightarrow> contains (lower s) (lower q)"
        using q by (cases s) (auto simp add: lower_def)
      with Some \<open>d_title d = Some v\<close> show ?thesis
        by (simp add: search_match_def contains_iff)
    qed
  qed
  have "search_tasks_endpoint st S q = Inr ts"
    using assms(2) by (simp add: search_tasks_endpoint_def search_tasks_def f ts(1))
  moreover have "map dict_of_Task ts = filter (\<lambda>d. \<exists>v. d_title d = Some v \<and>
                        ((\<exists>ps ss. lower v = ps @ lower q @ ss) \<or>
                         (\<exists>s ps ss. d_description d = Some s \<and> lower s = ps @ lower q @ ss))) ?ds"
    using ts(2) by (simp add: P)
  ultimately show ?thesis by blast
qed

lemma search_short_query:
  "length q < 2 \<Longrightarrow> search_tasks_endpoint st S q = Inl BadRequest_query"
  by (simp add: search_tasks_endpoint_def)

text \<open>
  C7 (search), evaluated where the code departs from it. After the body
  \<^verbatim>\<open>{"title": " ab"}\<close> has been stored with the title \<^verbatim>\<open>"ab"\<close>, the search for \<^verbatim>\<open>"ab"\<close>
  matches that dictionary and raises when it builds the \<^verbatim>\<open>Task\<close>. After the change set
  \<^verbatim>\<open>{"title": null}\<close> has been stored, any search of the session raises on
  \<^verbatim>\<open>t["title"].lower()\<close>.
\<close>

theorem search_raises_on_stored_record:
  "TaskCreate_validate (title_only '' ab'') = Inr ab_draft \<and>
   create_task example_env Map.empty ''s1'' ab_draft =
     (Inl ValidationError, [''s1'' \<mapsto> [new_task_dict example_env ab_draft]]) \<and>
   search_tasks_endpoint [''s1'' \<mapsto> [new_task_dict example_env ab_draft]] ''s1'' ''ab''
     = Inl ValidationError \<and>
   search_tasks_endpoint (snd (update_task later_env example_store ''s1'' ''id-1'' null_title))
       ''s1'' ''bug''
     = Inl AttributeError"
proof -
  have m: "search_match (lower ''ab'') (new_task_dict example_env ab_draft) = Inr True"
    by (simp add: search_match_def new_task_dict_def ab_draft_def lower_def lower_char_def)
  have a: "search_tasks_endpoint [''s1'' \<mapsto> [new_task_dict example_env ab_draft]] ''s1'' ''ab''
     = Inl ValidationError"
    by (simp add: search_tasks_endpoint_def search_tasks_def find_all_def m Task_of_ab)
  have b: "search_tasks_endpoint (snd (update_task later_env example_store ''s1'' ''id-1'' null_title))
       ''s1'' ''bug'' = Inl AttributeError"
    by (simp add: update_null_title search_tasks_endpoint_def search_tasks_def find_all_def
        search_match_def)
  show ?thesis
    by (simp only: a b validate_padded_ab create_task_eq Task_of_ab find_all_def)
       simp
qed

end
